theory Spec2Isabelle
  imports Complex_Main "HOL-Library.Word"
begin

section \<open>The recorder hook \<open>useAudioRecorder\<close>\<close>

text \<open>
  The hook keeps one React state object and six refs, and drives four platform
  facilities: the capture stream obtained by \<open>getUserMedia\<close>, an \<open>AudioContext\<close> with an
  analyser, a \<open>MediaRecorder\<close>, and two kinds of timers (\<open>setInterval\<close> and
  \<open>requestAnimationFrame\<close>). The model below is a single-threaded state machine: a
  \<open>world\<close> holds the React state, the refs and the live platform resources, and each
  synchronous piece of the hook (an operation up to its return, the continuation of an
  \<open>await\<close>, a callback, an event handler) is a function on worlds.
\<close>

subsection \<open>Data\<close>

text \<open>
  \<open>AudioRecorderState\<close> (lines 3-8). \<open>recordingTime\<close> starts at 0 and only ever has 1
  added, so it is a natural number; \<open>audioLevel\<close> is a quotient \<open>k / 16384\<close> with
  \<open>k \<le> 32640\<close> or the constant 1, which a double represents exactly, so rationals
  compute the same values.
\<close>

record AudioRecorderState =
  isRecording :: bool
  isPaused :: bool
  recordingTime :: nat
  audioLevel :: rat

text \<open>The \<open>state\<close> attribute of a \<open>MediaRecorder\<close>.\<close>

datatype RecordingState = inactive | recording | paused

datatype DOMException = InvalidStateError | NotAllowedError | NotFoundError | NotReadableError

text \<open>The promise returned by \<open>navigator.mediaDevices.getUserMedia\<close>.\<close>

datatype getUserMedia_result = Granted | Rejected DOMException

text \<open>
  What the caller of \<open>startRecording\<close>, \<open>pauseRecording\<close> or \<open>resumeRecording\<close> observes: a
  normal return (for the \<open>async\<close> \<open>startRecording\<close>, a fulfilled promise) or an exception.
\<close>

datatype 'a outcome = Returns 'a | Throws DOMException

text \<open>The state of a promise returned by \<open>stopRecording\<close>.\<close>

datatype 'a promise = Pending | Fulfilled 'a | RejectedWith DOMException

text \<open>
  \<open>MediaRecorder.stop()\<close> on a recorder whose state is \<open>inactive\<close>: older browsers throw
  \<open>InvalidStateError\<close>, the current recording specification returns without firing any
  event. The platform is not part of the repository, so both are kept.
\<close>

datatype stop_policy = ThrowsWhenInactive | IgnoresWhenInactive

type_synonym Blob = "8 word list"

text \<open>
  The refs of lines 18-23 hold identifiers of platform objects. The platform part of the
  world records which resources are live: open capture streams, open audio contexts,
  running intervals, and pending animation-frame requests. A pending frame request
  carries the values of \<open>state.isRecording\<close> and \<open>state.isPaused\<close> that the scheduled
  \<open>updateAudioLevel\<close> closure captured (its \<open>useCallback\<close> dependencies, line 39).
  Identifiers are handed out from \<open>nextId\<close>, which starts at 1, as timer handles of a
  browser are positive.

  \<open>onstop\<close> gives, for each recorder, the promise whose \<open>resolve\<close> its single \<open>onstop\<close>
  handler calls (line 91 assigns the handler, replacing an earlier one). \<open>stopQueue\<close> are
  the recorders for which \<open>MediaRecorder.stop()\<close> has queued the firing of
  \<open>dataavailable\<close> and \<open>stop\<close>. \<open>promises\<close> are the promises that \<open>stopRecording\<close> has
  returned so far, in the order of the calls; a promise is named by its position.
\<close>

record world =
  state :: AudioRecorderState
  mediaRecorderRef :: "nat option"
  audioContextRef :: "nat option"
  analyserRef :: "nat option"
  animationFrameRef :: "nat option"
  intervalRef :: "nat option"
  audioChunksRef :: "Blob list"
  recorderState :: "nat \<Rightarrow> RecordingState"
  liveStreams :: "nat list"
  openContexts :: "nat list"
  intervals :: "nat list"
  frames :: "(nat \<times> bool \<times> bool) list"
  nextId :: nat
  console :: "string list"
  onstop :: "nat \<Rightarrow> nat option"
  stopQueue :: "nat list"
  promises :: "Blob option promise list"

text \<open>The first render (lines 11-23).\<close>

definition init :: world where
  "init = \<lparr> state = \<lparr> isRecording = False, isPaused = False, recordingTime = 0, audioLevel = 0 \<rparr>,
            mediaRecorderRef = None, audioContextRef = None, analyserRef = None,
            animationFrameRef = None, intervalRef = None, audioChunksRef = [],
            recorderState = (\<lambda>_. inactive), liveStreams = [], openContexts = [],
            intervals = [], frames = [], nextId = 1, console = [],
            onstop = (\<lambda>_. None), stopQueue = [], promises = [] \<rparr>"

subsection \<open>Platform operations\<close>

definition fftSize :: nat where
  "fftSize = 256"

definition frequencyBinCount :: nat where
  "frequencyBinCount = fftSize div 2"

text \<open>
  \<open>new Uint8Array(n)\<close> followed by \<open>getByteFrequencyData\<close>: the array has \<open>n\<close> elements,
  zero where the analyser supplies no value. \<open>bins\<close> is the analyser's current
  frequency data.
\<close>

definition getByteFrequencyData :: "8 word list \<Rightarrow> nat \<Rightarrow> 8 word list" where
  "getByteFrequencyData bins n = map (\<lambda>i. if i < length bins then bins ! i else 0) [0..<n]"

definition requestAnimationFrame :: "bool \<times> bool \<Rightarrow> world \<Rightarrow> world" where
  "requestAnimationFrame captured w =
     w\<lparr> frames := frames w @ [(nextId w, captured)],
        animationFrameRef := Some (nextId w),
        nextId := Suc (nextId w) \<rparr>"

definition cancelAnimationFrame :: "nat \<Rightarrow> world \<Rightarrow> world" where
  "cancelAnimationFrame i w = w\<lparr> frames := filter (\<lambda>f. fst f \<noteq> i) (frames w) \<rparr>"

definition clearInterval :: "nat \<Rightarrow> world \<Rightarrow> world" where
  "clearInterval i w = w\<lparr> intervals := removeAll i (intervals w) \<rparr>"

definition closeContext :: "nat \<Rightarrow> world \<Rightarrow> world" where
  "closeContext c w = w\<lparr> openContexts := removeAll c (openContexts w) \<rparr>"

text \<open>
  \<open>resolve\<close> of the promise \<open>p\<close>: it settles the promise when it is pending and does
  nothing otherwise.
\<close>

definition resolve :: "nat \<Rightarrow> Blob option \<Rightarrow> world \<Rightarrow> world" where
  "resolve p v w =
     (if p < length (promises w) \<and> promises w ! p = Pending
      then w\<lparr> promises := (promises w)[p := Fulfilled v] \<rparr>
      else w)"

text \<open>\<open>MediaRecorder.pause()\<close> and \<open>resume()\<close> throw on an inactive recorder.\<close>

definition mr_pause :: "RecordingState \<Rightarrow> DOMException + RecordingState" where
  "mr_pause s = (case s of inactive \<Rightarrow> Inl InvalidStateError | _ \<Rightarrow> Inr paused)"

definition mr_resume :: "RecordingState \<Rightarrow> DOMException + RecordingState" where
  "mr_resume s = (case s of inactive \<Rightarrow> Inl InvalidStateError | _ \<Rightarrow> Inr recording)"

subsection \<open>The operations of the hook\<close>

text \<open>
  Lines 31-32. The array always has \<open>frequencyBinCount = 128\<close> elements, so the
  \<open>reduce\<close> without an initial value is the sum of its elements.
\<close>

definition average :: "8 word list \<Rightarrow> rat" where
  "average dataArray = of_nat (sum_list (map unat dataArray)) / of_nat (length dataArray)"

definition normalizedLevel :: "8 word list \<Rightarrow> rat" where
  "normalizedLevel dataArray = min (average dataArray / 128) 1"

text \<open>
  \<open>updateAudioLevel\<close> (lines 25-39). \<open>captured\<close> is the pair
  \<open>(state.isRecording, state.isPaused)\<close> of the render that created the closure: line 36
  reads these, not the state that line 34 has just updated.
\<close>

definition updateAudioLevel :: "bool \<times> bool \<Rightarrow> 8 word list \<Rightarrow> world \<Rightarrow> world" where
  "updateAudioLevel captured bins w =
     (case analyserRef w of
        None \<Rightarrow> w
      | Some a \<Rightarrow>
          let dataArray = getByteFrequencyData bins frequencyBinCount;
              w1 = w\<lparr> state := (state w)\<lparr> audioLevel := normalizedLevel dataArray \<rparr> \<rparr>
          in if fst captured \<and> \<not> snd captured
             then requestAnimationFrame captured w1
             else w1)"

text \<open>
  \<open>startRecording\<close> (lines 41-82), from the point where the promise of \<open>getUserMedia\<close>
  settles with \<open>res\<close>; before that point the call has done nothing but request the
  device, and after it the function runs to its end without another \<open>await\<close>.
  \<open>captured\<close> is the pair \<open>(state.isRecording, state.isPaused)\<close> of the render from which
  \<open>startRecording\<close> was called: the function was created in that render (line 82) and
  calls the \<open>updateAudioLevel\<close> of that render at line 77, whatever the state has become
  by the time the device is granted. A rejection is caught at line 79 and logged; the
  promise of the \<open>async\<close> function is fulfilled either way.
\<close>

definition startRecording ::
  "bool \<times> bool \<Rightarrow> getUserMedia_result \<Rightarrow> 8 word list \<Rightarrow> world \<Rightarrow> unit outcome \<times> world" where
  "startRecording captured res bins w =
     (case res of
        Rejected e \<Rightarrow> (Returns (), w\<lparr> console := console w @ [''Error starting recording:''] \<rparr>)
      | Granted \<Rightarrow>
          let stream = nextId w;
              ctx = nextId w + 1;
              mr = nextId w + 2;
              timer = nextId w + 3;
              w1 = w\<lparr> liveStreams := stream # liveStreams w,
                      openContexts := ctx # openContexts w,
                      audioContextRef := Some ctx,
                      analyserRef := Some ctx,
                      mediaRecorderRef := Some mr,
                      audioChunksRef := [],
                      recorderState := (recorderState w)(mr := recording),
                      state := (state w)\<lparr> isRecording := True, recordingTime := 0 \<rparr>,
                      intervals := timer # intervals w,
                      intervalRef := Some timer,
                      nextId := nextId w + 4 \<rparr>
          in (Returns (), updateAudioLevel captured bins w1))"

text \<open>
  The clean-up block of \<open>stopRecording\<close> (lines 98-116). The tests of lines 99 and 103
  are truthiness tests, so a handle equal to 0 would be skipped.
\<close>

definition cleanUp :: "world \<Rightarrow> world" where
  "cleanUp w =
     (let w1 = (case intervalRef w of
                  Some i \<Rightarrow> if i \<noteq> 0 then clearInterval i w else w
                | None \<Rightarrow> w);
          w2 = (case animationFrameRef w1 of
                  Some f \<Rightarrow> if f \<noteq> 0 then cancelAnimationFrame f w1 else w1
                | None \<Rightarrow> w1);
          w3 = (case audioContextRef w2 of
                  Some c \<Rightarrow> closeContext c w2
                | None \<Rightarrow> w2)
      in w3\<lparr> state := (state w3)\<lparr> isRecording := False, isPaused := False, audioLevel := 0 \<rparr> \<rparr>)"

text \<open>
  \<open>stopRecording\<close> (lines 84-118), up to its return. It returns a new promise, here its
  position in \<open>promises\<close>. Without a recorder the promise is fulfilled with null at once
  (line 87). Otherwise line 91 makes \<open>resolve\<close> of the new promise the \<open>onstop\<close> handler
  of the recorder, replacing the handler of an earlier call, and line 96 calls
  \<open>MediaRecorder.stop()\<close>: on an active recorder this makes the recorder inactive and
  queues the firing of \<open>dataavailable\<close> and \<open>stop\<close>; on an inactive recorder it
  either throws, which rejects the promise and skips the rest of the executor, or does
  nothing. The promise of an active recorder is still pending when \<open>stopRecording\<close>
  returns.
\<close>

definition stopRecording :: "stop_policy \<Rightarrow> world \<Rightarrow> nat \<times> world" where
  "stopRecording pol w =
     (let p = length (promises w) in
      case mediaRecorderRef w of
        None \<Rightarrow> (p, w\<lparr> promises := promises w @ [Fulfilled None] \<rparr>)
      | Some mr \<Rightarrow>
          let w0 = w\<lparr> onstop := (onstop w)(mr := Some p) \<rparr> in
          (case recorderState w mr of
             inactive \<Rightarrow>
               (case pol of
                  ThrowsWhenInactive \<Rightarrow>
                    (p, w0\<lparr> promises := promises w @ [RejectedWith InvalidStateError] \<rparr>)
                | IgnoresWhenInactive \<Rightarrow>
                    (p, cleanUp (w0\<lparr> promises := promises w @ [Pending] \<rparr>)))
           | _ \<Rightarrow>
               (p, cleanUp (w0\<lparr> promises := promises w @ [Pending],
                               recorderState := (recorderState w)(mr := inactive),
                               stopQueue := stopQueue w @ [mr] \<rparr>))))"

text \<open>
  The step queued by \<open>MediaRecorder.stop()\<close> for the recorder \<open>mr\<close>. It fires
  \<open>dataavailable\<close> with the remaining data \<open>chunk\<close>, which the handler of lines 56-58
  pushes onto the shared \<open>audioChunksRef\<close>, and then \<open>stop\<close>, whose handler (lines 91-94),
  the one assigned last, builds the blob from \<open>audioChunksRef\<close> and resolves its promise.
\<close>

definition stopEvent :: "nat \<Rightarrow> Blob \<Rightarrow> world \<Rightarrow> world" where
  "stopEvent mr chunk w =
     (if mr \<in> set (stopQueue w) then
        let w1 = w\<lparr> stopQueue := remove1 mr (stopQueue w),
                    audioChunksRef := audioChunksRef w @ [chunk] \<rparr>
        in (case onstop w1 mr of
              None \<Rightarrow> w1
            | Some p \<Rightarrow> resolve p (Some (concat (audioChunksRef w1))) w1)
      else w)"

text \<open>\<open>pauseRecording\<close> (lines 120-129).\<close>

definition pauseRecording :: "world \<Rightarrow> unit outcome \<times> world" where
  "pauseRecording w =
     (case mediaRecorderRef w of
        None \<Rightarrow> (Returns (), w)
      | Some mr \<Rightarrow>
          if isRecording (state w) then
            (case mr_pause (recorderState w mr) of
               Inl e \<Rightarrow> (Throws e, w)
             | Inr s \<Rightarrow>
                 let w1 = w\<lparr> recorderState := (recorderState w)(mr := s),
                             state := (state w)\<lparr> isPaused := True \<rparr> \<rparr>
                 in (Returns (),
                     (case animationFrameRef w1 of
                        Some f \<Rightarrow> if f \<noteq> 0 then cancelAnimationFrame f w1 else w1
                      | None \<Rightarrow> w1)))
          else (Returns (), w))"

text \<open>
  \<open>resumeRecording\<close> (lines 131-137). It runs in a render in which \<open>state.isPaused\<close> is
  true, so the \<open>updateAudioLevel\<close> it calls has captured that value.
\<close>

definition resumeRecording :: "8 word list \<Rightarrow> world \<Rightarrow> unit outcome \<times> world" where
  "resumeRecording bins w =
     (case mediaRecorderRef w of
        None \<Rightarrow> (Returns (), w)
      | Some mr \<Rightarrow>
          if isPaused (state w) then
            (case mr_resume (recorderState w mr) of
               Inl e \<Rightarrow> (Throws e, w)
             | Inr s \<Rightarrow>
                 let captured = (isRecording (state w), isPaused (state w));
                     w1 = w\<lparr> recorderState := (recorderState w)(mr := s),
                             state := (state w)\<lparr> isPaused := False \<rparr> \<rparr>
                 in (Returns (), updateAudioLevel captured bins w1))
          else (Returns (), w))"

text \<open>The interval callback of lines 69-74, for the interval with handle \<open>i\<close>.\<close>

definition tick :: "nat \<Rightarrow> world \<Rightarrow> world" where
  "tick i w =
     (if i \<in> set (intervals w)
      then w\<lparr> state := (state w)\<lparr> recordingTime := recordingTime (state w) + 1 \<rparr> \<rparr>
      else w)"

text \<open>
  The animation-frame callback with handle \<open>i\<close>: the pending request is consumed and the
  closure it holds runs.
\<close>

definition frame :: "nat \<Rightarrow> 8 word list \<Rightarrow> world \<Rightarrow> world" where
  "frame i bins w =
     (case find (\<lambda>f. fst f = i) (frames w) of
        None \<Rightarrow> w
      | Some f \<Rightarrow> updateAudioLevel (snd f) bins (cancelAnimationFrame i w))"

subsection \<open>Runs\<close>

text \<open>
  Everything that can happen to the hook. \<open>Start captured res bins\<close>: the device request
  of a \<open>startRecording\<close> call made from a render with the flags \<open>captured\<close> is answered.
  \<open>Stop\<close>, \<open>Pause\<close>, \<open>Resume\<close>: the operation is called from the current render.
  \<open>StopEvent\<close>: the queued stop event of a recorder fires. \<open>Tick\<close>, \<open>Frame\<close>: one of the two
  periodic callbacks fires.
\<close>

datatype event =
    Start "bool \<times> bool" getUserMedia_result "8 word list"
  | Stop
  | StopEvent nat Blob
  | Pause
  | Resume "8 word list"
  | Tick nat
  | Frame nat "8 word list"

fun step :: "stop_policy \<Rightarrow> event \<Rightarrow> world \<Rightarrow> world" where
  "step pol (Start captured res bins) w = snd (startRecording captured res bins w)"
| "step pol Stop w = snd (stopRecording pol w)"
| "step pol (StopEvent mr chunk) w = stopEvent mr chunk w"
| "step pol Pause w = snd (pauseRecording w)"
| "step pol (Resume bins) w = snd (resumeRecording bins w)"
| "step pol (Tick i) w = tick i w"
| "step pol (Frame i bins) w = frame i bins w"

fun run :: "stop_policy \<Rightarrow> event list \<Rightarrow> world \<Rightarrow> world" where
  "run pol [] w = w"
| "run pol (e # es) w = run pol es (step pol e w)"

text \<open>The answer to a \<open>startRecording\<close> call grants the device.\<close>

fun is_granted_start :: "event \<Rightarrow> bool" where
  "is_granted_start (Start captured Granted bins) = True"
| "is_granted_start _ = False"

text \<open>
  The recorder held in \<open>mediaRecorderRef\<close> is recording or paused: the session is active
  on the platform.
\<close>

definition recorderActive :: "world \<Rightarrow> bool" where
  "recorderActive w =
     (case mediaRecorderRef w of None \<Rightarrow> False | Some mr \<Rightarrow> recorderState w mr \<noteq> inactive)"

text \<open>
  The invariant of the metering loop: a paused status is a recording one; every pending
  frame request holds a closure that captured \<open>(true, false)\<close>; frame requests are
  pending only once an analyser exists; a non-zero level outside a recording is
  accompanied by a pending frame request; and the level lies between 0 and 1.
\<close>

definition meter_inv :: "world \<Rightarrow> bool" where
  "meter_inv w \<longleftrightarrow>
     (isPaused (state w) \<longrightarrow> isRecording (state w)) \<and>
     (\<forall>f \<in> set (frames w). snd f = (True, False)) \<and>
     (frames w \<noteq> [] \<longrightarrow> analyserRef w \<noteq> None) \<and>
     (isRecording (state w) \<or> audioLevel (state w) = 0 \<or> frames w \<noteq> []) \<and>
     0 \<le> audioLevel (state w) \<and> audioLevel (state w) \<le> 1"

text \<open>
  A promise that nothing can settle any more: it is pending, and every recorder whose
  \<open>onstop\<close> handler would resolve it is an existing recorder that is inactive and has no
  stop event queued.
\<close>

definition orphaned :: "nat \<Rightarrow> world \<Rightarrow> bool" where
  "orphaned p w \<longleftrightarrow>
     p < length (promises w) \<and> promises w ! p = Pending \<and>
     (\<forall>m. onstop w m = Some p \<longrightarrow>
        recorderState w m = inactive \<and> m \<notin> set (stopQueue w) \<and> m < nextId w)"

text \<open>
  A promise that will be resolved with a payload: it has been already, or it is pending
  and is the one that the \<open>onstop\<close> handler of the recorder \<open>mr\<close> resolves, and the stop
  event of \<open>mr\<close> is queued.
\<close>

definition awaiting :: "nat \<Rightarrow> nat \<Rightarrow> world \<Rightarrow> bool" where
  "awaiting p mr w \<longleftrightarrow>
     p < length (promises w) \<and>
     ((\<exists>b. promises w ! p = Fulfilled (Some b)) \<or>
      promises w ! p = Pending \<and> onstop w mr = Some p \<and> mr \<in> set (stopQueue w))"

section \<open>Basic facts\<close>

subsection \<open>The level computation\<close>

lemma getByteFrequencyData_Nil: "getByteFrequencyData [] n = replicate n 0"
  by (simp add: getByteFrequencyData_def map_replicate_const)

lemma length_getByteFrequencyData: "length (getByteFrequencyData bins n) = n"
  by (simp add: getByteFrequencyData_def)

lemma getByteFrequencyData_full: "getByteFrequencyData bins (length bins) = bins"
  by (rule nth_equalityI) (simp_all add: getByteFrequencyData_def)

lemma sum_list_replicate_unat: "sum_list (map unat (replicate n x)) = n * unat x"
  by (induction n) simp_all

lemma average_nonneg: "0 \<le> average d"
  by (simp add: average_def)

lemma normalizedLevel_bounds: "0 \<le> normalizedLevel d \<and> normalizedLevel d \<le> 1"
  using average_nonneg [of d] by (simp add: normalizedLevel_def)

lemma normalizedLevel_silent: "normalizedLevel (replicate n 0) = 0"
  by (simp add: normalizedLevel_def average_def sum_list_replicate)

lemma normalizedLevel_loud:
  assumes "0 < n"
  shows "normalizedLevel (replicate n 255) = 1"
proof -
  have u: "unat (255 :: 8 word) = 255"
    by simp
  have "sum_list (map unat (replicate n (255 :: 8 word))) = n * 255"
    by (simp only: sum_list_replicate_unat u)
  then have "average (replicate n 255) = 255"
    using assms by (simp add: average_def)
  then show ?thesis
    by (simp add: normalizedLevel_def)
qed

lemma frequencyBinCount_128: "frequencyBinCount = 128"
  by (simp add: frequencyBinCount_def fftSize_def)

lemma level_silent: "normalizedLevel (getByteFrequencyData [] frequencyBinCount) = 0"
  by (simp add: getByteFrequencyData_Nil normalizedLevel_silent)

lemma level_loud: "normalizedLevel (getByteFrequencyData (replicate 128 255) frequencyBinCount) = 1"
  using getByteFrequencyData_full [of "replicate 128 255"]
  by (simp add: frequencyBinCount_128 normalizedLevel_loud)

subsection \<open>Unfolding the operations\<close>

lemmas hook_defs = startRecording_def stopRecording_def stopEvent_def resolve_def
  pauseRecording_def resumeRecording_def
  updateAudioLevel_def cleanUp_def tick_def frame_def requestAnimationFrame_def
  cancelAnimationFrame_def clearInterval_def closeContext_def mr_pause_def mr_resume_def Let_def

subsection \<open>What each operation does to the fields\<close>

lemma state_updateAudioLevel:
  "state (updateAudioLevel c bins w) =
     (if analyserRef w = None then state w
      else (state w)\<lparr> audioLevel := normalizedLevel (getByteFrequencyData bins frequencyBinCount) \<rparr>)"
  by (simp add: updateAudioLevel_def requestAnimationFrame_def Let_def split: option.splits)

lemma frames_updateAudioLevel:
  "frames (updateAudioLevel c bins w) =
     (if analyserRef w \<noteq> None \<and> fst c \<and> \<not> snd c then frames w @ [(nextId w, c)] else frames w)"
  by (simp add: updateAudioLevel_def requestAnimationFrame_def Let_def split: option.splits)

lemma analyserRef_updateAudioLevel: "analyserRef (updateAudioLevel c bins w) = analyserRef w"
  by (simp add: updateAudioLevel_def requestAnimationFrame_def Let_def split: option.splits)

lemma recorder_updateAudioLevel:
  "mediaRecorderRef (updateAudioLevel c bins w) = mediaRecorderRef w"
  "recorderState (updateAudioLevel c bins w) = recorderState w"
  "nextId w \<le> nextId (updateAudioLevel c bins w)"
  by (simp_all add: updateAudioLevel_def requestAnimationFrame_def Let_def split: option.splits)

lemma settling_updateAudioLevel:
  "promises (updateAudioLevel c bins w) = promises w"
  "onstop (updateAudioLevel c bins w) = onstop w"
  "stopQueue (updateAudioLevel c bins w) = stopQueue w"
  by (simp_all add: updateAudioLevel_def requestAnimationFrame_def Let_def split: option.splits)

lemma recorderActive_updateAudioLevel: "recorderActive (updateAudioLevel c bins w) = recorderActive w"
  by (simp add: recorderActive_def recorder_updateAudioLevel split: option.splits)

lemma state_start:
  "state (snd (startRecording c Granted bins w)) =
     \<lparr> isRecording = True, isPaused = isPaused (state w), recordingTime = 0,
       audioLevel = normalizedLevel (getByteFrequencyData bins frequencyBinCount) \<rparr>"
  by (simp add: startRecording_def state_updateAudioLevel Let_def)

lemma frames_start:
  "frames (snd (startRecording c Granted bins w)) =
     frames w @ (if fst c \<and> \<not> snd c then [(nextId w + 4, c)] else [])"
  by (simp add: startRecording_def frames_updateAudioLevel Let_def)

lemma analyserRef_start:
  "analyserRef (snd (startRecording c Granted bins w)) = Some (nextId w + 1)"
  by (simp add: startRecording_def analyserRef_updateAudioLevel Let_def)

lemma recorder_start:
  "mediaRecorderRef (snd (startRecording c Granted bins w)) = Some (nextId w + 2)"
  "recorderState (snd (startRecording c Granted bins w)) =
     (recorderState w)(nextId w + 2 := recording)"
  "nextId w \<le> nextId (snd (startRecording c res bins w))"
proof -
  show "mediaRecorderRef (snd (startRecording c Granted bins w)) = Some (nextId w + 2)"
    by (simp add: startRecording_def recorder_updateAudioLevel Let_def)
  show "recorderState (snd (startRecording c Granted bins w)) =
     (recorderState w)(nextId w + 2 := recording)"
    by (simp add: startRecording_def recorder_updateAudioLevel Let_def)
  show "nextId w \<le> nextId (snd (startRecording c res bins w))"
    by (cases res)
      (simp_all add: startRecording_def updateAudioLevel_def requestAnimationFrame_def Let_def
        split: option.splits)
qed

lemma recorderActive_start: "recorderActive (snd (startRecording c Granted bins w))"
  by (simp add: recorderActive_def recorder_start)

lemma start_rejected:
  "startRecording c (Rejected e) bins w =
     (Returns (), w\<lparr> console := console w @ [''Error starting recording:''] \<rparr>)"
  by (simp add: startRecording_def)

lemma settling_start:
  "promises (snd (startRecording c res bins w)) = promises w"
  "onstop (snd (startRecording c res bins w)) = onstop w"
  "stopQueue (snd (startRecording c res bins w)) = stopQueue w"
  by (cases res; simp add: startRecording_def settling_updateAudioLevel Let_def)+

lemma state_cleanUp:
  "state (cleanUp w) = (state w)\<lparr> isRecording := False, isPaused := False, audioLevel := 0 \<rparr>"
  by (simp add: cleanUp_def clearInterval_def cancelAnimationFrame_def closeContext_def Let_def
      split: option.splits)

lemma frames_cleanUp:
  "frames (cleanUp w) =
     (case animationFrameRef w of
        Some f \<Rightarrow> if f \<noteq> 0 then filter (\<lambda>g. fst g \<noteq> f) (frames w) else frames w
      | None \<Rightarrow> frames w)"
  by (simp add: cleanUp_def clearInterval_def cancelAnimationFrame_def closeContext_def Let_def
      split: option.splits)

lemma set_frames_cleanUp: "set (frames (cleanUp w)) \<subseteq> set (frames w)"
  by (auto simp: frames_cleanUp split: option.splits)

lemma analyserRef_cleanUp: "analyserRef (cleanUp w) = analyserRef w"
  by (simp add: cleanUp_def clearInterval_def cancelAnimationFrame_def closeContext_def Let_def
      split: option.splits)

lemma recorder_cleanUp:
  "mediaRecorderRef (cleanUp w) = mediaRecorderRef w"
  "recorderState (cleanUp w) = recorderState w"
  "nextId (cleanUp w) = nextId w"
  "audioChunksRef (cleanUp w) = audioChunksRef w"
  by (simp_all add: cleanUp_def clearInterval_def cancelAnimationFrame_def closeContext_def
      Let_def split: option.splits)

lemma settling_cleanUp:
  "promises (cleanUp w) = promises w"
  "onstop (cleanUp w) = onstop w"
  "stopQueue (cleanUp w) = stopQueue w"
  by (simp_all add: cleanUp_def clearInterval_def cancelAnimationFrame_def closeContext_def
      Let_def split: option.splits)

lemma recorderActive_cleanUp: "recorderActive (cleanUp w) = recorderActive w"
  by (simp add: recorderActive_def recorder_cleanUp split: option.splits)

lemma stop_no_recorder:
  "mediaRecorderRef w = None \<Longrightarrow>
   stopRecording pol w = (length (promises w), w\<lparr> promises := promises w @ [Fulfilled None] \<rparr>)"
  by (simp add: stopRecording_def)

lemma stop_active:
  "mediaRecorderRef w = Some mr \<Longrightarrow> recorderState w mr \<noteq> inactive \<Longrightarrow>
   stopRecording pol w =
     (length (promises w),
      cleanUp (w\<lparr> onstop := (onstop w)(mr := Some (length (promises w))),
                  promises := promises w @ [Pending],
                  recorderState := (recorderState w)(mr := inactive),
                  stopQueue := stopQueue w @ [mr] \<rparr>))"
  by (cases "recorderState w mr") (simp_all add: stopRecording_def Let_def)

lemma stop_inactive_throws:
  "mediaRecorderRef w = Some mr \<Longrightarrow> recorderState w mr = inactive \<Longrightarrow>
   stopRecording ThrowsWhenInactive w =
     (length (promises w),
      w\<lparr> onstop := (onstop w)(mr := Some (length (promises w))),
         promises := promises w @ [RejectedWith InvalidStateError] \<rparr>)"
  by (simp add: stopRecording_def Let_def)

lemma stop_inactive_ignores:
  "mediaRecorderRef w = Some mr \<Longrightarrow> recorderState w mr = inactive \<Longrightarrow>
   stopRecording IgnoresWhenInactive w =
     (length (promises w),
      cleanUp (w\<lparr> onstop := (onstop w)(mr := Some (length (promises w))),
                  promises := promises w @ [Pending] \<rparr>))"
  by (simp add: stopRecording_def Let_def)

lemma stop_cases:
  obtains (none) "mediaRecorderRef w = None"
      "stopRecording pol w =
         (length (promises w), w\<lparr> promises := promises w @ [Fulfilled None] \<rparr>)"
  | (throws) mr where "mediaRecorderRef w = Some mr" "recorderState w mr = inactive"
      "pol = ThrowsWhenInactive"
      "stopRecording pol w =
         (length (promises w),
          w\<lparr> onstop := (onstop w)(mr := Some (length (promises w))),
             promises := promises w @ [RejectedWith InvalidStateError] \<rparr>)"
  | (ignores) mr where "mediaRecorderRef w = Some mr" "recorderState w mr = inactive"
      "pol = IgnoresWhenInactive"
      "stopRecording pol w =
         (length (promises w),
          cleanUp (w\<lparr> onstop := (onstop w)(mr := Some (length (promises w))),
                      promises := promises w @ [Pending] \<rparr>))"
  | (active) mr where "mediaRecorderRef w = Some mr" "recorderState w mr \<noteq> inactive"
      "stopRecording pol w =
         (length (promises w),
          cleanUp (w\<lparr> onstop := (onstop w)(mr := Some (length (promises w))),
                      promises := promises w @ [Pending],
                      recorderState := (recorderState w)(mr := inactive),
                      stopQueue := stopQueue w @ [mr] \<rparr>))"
proof (cases "mediaRecorderRef w")
  case None
  then show ?thesis
    using none stop_no_recorder by blast
next
  case (Some mr)
  show ?thesis
  proof (cases "recorderState w mr = inactive")
    case True
    then show ?thesis
      using Some throws ignores stop_inactive_throws stop_inactive_ignores
      by (cases pol) blast+
  next
    case False
    then show ?thesis
      using Some active stop_active by blast
  qed
qed

lemma fst_stop: "fst (stopRecording pol w) = length (promises w)"
  by (rule stop_cases [where w = w and pol = pol]) simp_all

lemma state_stop:
  "state (snd (stopRecording pol w)) = state w \<or>
   state (snd (stopRecording pol w)) =
     (state w)\<lparr> isRecording := False, isPaused := False, audioLevel := 0 \<rparr>"
  by (rule stop_cases [where w = w and pol = pol]) (simp_all add: state_cleanUp)

lemma mediaRecorderRef_stop: "mediaRecorderRef (snd (stopRecording pol w)) = mediaRecorderRef w"
  by (rule stop_cases [where w = w and pol = pol]) (simp_all add: recorder_cleanUp)

lemma fields_stopEvent:
  "state (stopEvent mr chunk w) = state w"
  "frames (stopEvent mr chunk w) = frames w"
  "analyserRef (stopEvent mr chunk w) = analyserRef w"
  "mediaRecorderRef (stopEvent mr chunk w) = mediaRecorderRef w"
  "recorderState (stopEvent mr chunk w) = recorderState w"
  "nextId (stopEvent mr chunk w) = nextId w"
  "onstop (stopEvent mr chunk w) = onstop w"
  by (simp_all add: stopEvent_def resolve_def Let_def split: option.splits)

lemma recorderActive_stopEvent: "recorderActive (stopEvent mr chunk w) = recorderActive w"
  by (simp add: recorderActive_def fields_stopEvent split: option.splits)

lemma state_pause:
  "state (snd (pauseRecording w)) =
     (if recorderActive w \<and> isRecording (state w) then (state w)\<lparr> isPaused := True \<rparr> else state w)"
  by (simp add: pauseRecording_def recorderActive_def mr_pause_def cancelAnimationFrame_def Let_def
      split: option.splits RecordingState.splits)

lemma pause_without_session:
  "\<not> (recorderActive w \<and> isRecording (state w)) \<Longrightarrow> snd (pauseRecording w) = w"
  by (auto simp: pauseRecording_def recorderActive_def mr_pause_def
      split: option.splits RecordingState.splits)

lemma frames_pause: "set (frames (snd (pauseRecording w))) \<subseteq> set (frames w)"
  by (auto simp: pauseRecording_def mr_pause_def cancelAnimationFrame_def Let_def
      split: option.splits RecordingState.splits)

lemma analyserRef_pause: "analyserRef (snd (pauseRecording w)) = analyserRef w"
  by (simp add: pauseRecording_def mr_pause_def cancelAnimationFrame_def Let_def
      split: option.splits RecordingState.splits)

lemma recorder_pause:
  "mediaRecorderRef (snd (pauseRecording w)) = mediaRecorderRef w"
  "nextId (snd (pauseRecording w)) = nextId w"
  "recorderState w m = inactive \<Longrightarrow> recorderState (snd (pauseRecording w)) m = inactive"
  by (auto simp: pauseRecording_def mr_pause_def cancelAnimationFrame_def Let_def
      split: option.splits RecordingState.splits)

lemma settling_pause:
  "promises (snd (pauseRecording w)) = promises w"
  "onstop (snd (pauseRecording w)) = onstop w"
  "stopQueue (snd (pauseRecording w)) = stopQueue w"
  by (simp_all add: pauseRecording_def mr_pause_def cancelAnimationFrame_def Let_def
      split: option.splits RecordingState.splits)

lemma recorderActive_pause: "recorderActive (snd (pauseRecording w)) = recorderActive w"
  by (simp add: pauseRecording_def recorderActive_def mr_pause_def cancelAnimationFrame_def Let_def
      split: option.splits RecordingState.splits)

lemma state_resume:
  "state (snd (resumeRecording bins w)) =
     (if recorderActive w \<and> isPaused (state w)
      then (if analyserRef w = None then (state w)\<lparr> isPaused := False \<rparr>
            else (state w)\<lparr> isPaused := False,
                   audioLevel := normalizedLevel (getByteFrequencyData bins frequencyBinCount) \<rparr>)
      else state w)"
  by (simp add: resumeRecording_def recorderActive_def mr_resume_def state_updateAudioLevel
      analyserRef_updateAudioLevel Let_def split: option.splits RecordingState.splits)

lemma frames_resume: "frames (snd (resumeRecording bins w)) = frames w"
  by (simp add: resumeRecording_def mr_resume_def frames_updateAudioLevel Let_def
      split: option.splits RecordingState.splits)

lemma analyserRef_resume: "analyserRef (snd (resumeRecording bins w)) = analyserRef w"
  by (simp add: resumeRecording_def mr_resume_def analyserRef_updateAudioLevel Let_def
      split: option.splits RecordingState.splits)

lemma recorder_resume:
  "mediaRecorderRef (snd (resumeRecording bins w)) = mediaRecorderRef w"
  "nextId w \<le> nextId (snd (resumeRecording bins w))"
  "recorderState w m = inactive \<Longrightarrow> recorderState (snd (resumeRecording bins w)) m = inactive"
  by (auto simp: resumeRecording_def mr_resume_def updateAudioLevel_def
      requestAnimationFrame_def Let_def split: option.splits RecordingState.splits)

lemma settling_resume:
  "promises (snd (resumeRecording bins w)) = promises w"
  "onstop (snd (resumeRecording bins w)) = onstop w"
  "stopQueue (snd (resumeRecording bins w)) = stopQueue w"
  by (simp_all add: resumeRecording_def mr_resume_def settling_updateAudioLevel Let_def
      split: option.splits RecordingState.splits)

lemma recorderActive_resume: "recorderActive (snd (resumeRecording bins w)) = recorderActive w"
  by (simp add: resumeRecording_def recorderActive_def mr_resume_def updateAudioLevel_def
      requestAnimationFrame_def Let_def split: option.splits RecordingState.splits)

lemma state_tick:
  "state (tick i w) =
     (if i \<in> set (intervals w)
      then (state w)\<lparr> recordingTime := recordingTime (state w) + 1 \<rparr> else state w)"
  by (simp add: tick_def)

lemma fields_tick:
  "mediaRecorderRef (tick i w) = mediaRecorderRef w"
  "recorderState (tick i w) = recorderState w"
  "nextId (tick i w) = nextId w"
  "promises (tick i w) = promises w"
  "onstop (tick i w) = onstop w"
  "stopQueue (tick i w) = stopQueue w"
  by (simp_all add: tick_def)

lemma recorderActive_tick: "recorderActive (tick i w) = recorderActive w"
  by (simp add: recorderActive_def fields_tick split: option.splits)

lemma state_frame:
  "state (frame i bins w) = state w \<or>
   state (frame i bins w) =
     (state w)\<lparr> audioLevel := normalizedLevel (getByteFrequencyData bins frequencyBinCount) \<rparr>"
  by (simp add: frame_def state_updateAudioLevel cancelAnimationFrame_def split: option.splits)

lemma fields_frame:
  "mediaRecorderRef (frame i bins w) = mediaRecorderRef w"
  "recorderState (frame i bins w) = recorderState w"
  "nextId w \<le> nextId (frame i bins w)"
  "promises (frame i bins w) = promises w"
  "onstop (frame i bins w) = onstop w"
  "stopQueue (frame i bins w) = stopQueue w"
  by (simp_all add: frame_def updateAudioLevel_def requestAnimationFrame_def
      cancelAnimationFrame_def Let_def split: option.splits)

lemma recorderActive_frame: "recorderActive (frame i bins w) = recorderActive w"
  by (simp add: recorderActive_def fields_frame split: option.splits)

lemma run_append: "run pol (xs @ ys) w = run pol ys (run pol xs w)"
  by (induction xs arbitrary: w) simp_all

subsection \<open>Paused implies recording\<close>

lemma paused_recording_step:
  assumes "isPaused (state w) \<longrightarrow> isRecording (state w)"
  shows "isPaused (state (step pol e w)) \<longrightarrow> isRecording (state (step pol e w))"
proof (cases e)
  case (Start c res bins)
  then show ?thesis
    using assms by (cases res) (simp_all add: state_start start_rejected)
next
  case Stop
  then show ?thesis
    using assms state_stop [of pol w] by auto
next
  case (StopEvent mr chunk)
  then show ?thesis
    using assms by (simp add: fields_stopEvent)
next
  case Pause
  then show ?thesis
    using assms by (simp add: state_pause)
next
  case (Resume bins)
  then show ?thesis
    using assms by (simp add: state_resume)
next
  case (Tick i)
  then show ?thesis
    using assms by (simp add: state_tick)
next
  case (Frame i bins)
  then show ?thesis
    using assms state_frame [of i bins w] by auto
qed

lemma paused_recording_run:
  "isPaused (state w) \<longrightarrow> isRecording (state w) \<Longrightarrow>
   isPaused (state (run pol es w)) \<longrightarrow> isRecording (state (run pol es w))"
proof (induction es arbitrary: w)
  case Nil
  then show ?case by simp
next
  case (Cons e es)
  from Cons.prems have "isPaused (state (step pol e w)) \<longrightarrow> isRecording (state (step pol e w))"
    by (rule paused_recording_step)
  then show ?case
    using Cons.IH by simp
qed

subsection \<open>The recorder behind the status\<close>

lemma recorderActive_console [simp]:
  "recorderActive (w\<lparr> console := c \<rparr>) = recorderActive w"
  by (simp add: recorderActive_def split: option.splits)

lemma recording_active_stop:
  assumes "isRecording (state w) \<longrightarrow> recorderActive w"
  shows "isRecording (state (snd (stopRecording pol w))) \<longrightarrow>
         recorderActive (snd (stopRecording pol w))"
proof (rule stop_cases [where w = w and pol = pol])
  assume "mediaRecorderRef w = None"
    and "stopRecording pol w =
      (length (promises w), w\<lparr> promises := promises w @ [Fulfilled None] \<rparr>)"
  then show ?thesis
    using assms by (simp add: recorderActive_def)
next
  fix mr
  assume "mediaRecorderRef w = Some mr" "recorderState w mr = inactive"
    and "stopRecording pol w =
      (length (promises w),
       w\<lparr> onstop := (onstop w)(mr := Some (length (promises w))),
          promises := promises w @ [RejectedWith InvalidStateError] \<rparr>)"
  then show ?thesis
    using assms by (simp add: recorderActive_def)
next
  fix mr
  assume "stopRecording pol w =
      (length (promises w),
       cleanUp (w\<lparr> onstop := (onstop w)(mr := Some (length (promises w))),
                   promises := promises w @ [Pending] \<rparr>))"
  then show ?thesis
    by (simp add: state_cleanUp)
next
  fix mr
  assume "stopRecording pol w =
      (length (promises w),
       cleanUp (w\<lparr> onstop := (onstop w)(mr := Some (length (promises w))),
                   promises := promises w @ [Pending],
                   recorderState := (recorderState w)(mr := inactive),
                   stopQueue := stopQueue w @ [mr] \<rparr>))"
  then show ?thesis
    by (simp add: state_cleanUp)
qed

lemma recording_active_step:
  assumes "isRecording (state w) \<longrightarrow> recorderActive w"
  shows "isRecording (state (step pol e w)) \<longrightarrow> recorderActive (step pol e w)"
proof (cases e)
  case (Start c res bins)
  then show ?thesis
    using assms by (cases res) (simp_all add: recorderActive_start start_rejected)
next
  case Stop
  then show ?thesis
    using assms recording_active_stop by simp
next
  case (StopEvent mr chunk)
  then show ?thesis
    using assms by (simp add: fields_stopEvent recorderActive_stopEvent)
next
  case Pause
  then show ?thesis
    using assms by (simp add: state_pause recorderActive_pause)
next
  case (Resume bins)
  then show ?thesis
    using assms by (simp add: state_resume recorderActive_resume)
next
  case (Tick i)
  then show ?thesis
    using assms by (simp add: state_tick recorderActive_tick)
next
  case (Frame i bins)
  then show ?thesis
    using assms state_frame [of i bins w] by (auto simp: recorderActive_frame)
qed

lemma recording_active_run:
  "isRecording (state w) \<longrightarrow> recorderActive w \<Longrightarrow>
   isRecording (state (run pol es w)) \<longrightarrow> recorderActive (run pol es w)"
proof (induction es arbitrary: w)
  case Nil
  then show ?case by simp
next
  case (Cons e es)
  from Cons.prems have "isRecording (state (step pol e w)) \<longrightarrow> recorderActive (step pol e w)"
    by (rule recording_active_step)
  then show ?case
    using Cons.IH by simp
qed

lemma recording_active_reachable:
  "isRecording (state (run pol es init)) \<Longrightarrow> recorderActive (run pol es init)"
  using recording_active_run [of init pol es] by (simp add: init_def)

lemma state_stop_when_active:
  assumes "recorderActive w"
  shows "state (snd (stopRecording pol w)) =
           \<lparr> isRecording = False, isPaused = False, recordingTime = recordingTime (state w),
             audioLevel = 0 \<rparr>"
proof -
  from assms obtain mr where mr: "mediaRecorderRef w = Some mr" "recorderState w mr \<noteq> inactive"
    by (auto simp: recorderActive_def split: option.splits)
  show ?thesis
    by (simp add: stop_active [OF mr] state_cleanUp)
qed

lemma recordingTime_step:
  assumes "\<not> is_granted_start e"
  shows "recordingTime (state (step pol e w)) = recordingTime (state w) \<or>
         recordingTime (state (step pol e w)) = recordingTime (state w) + 1"
proof (cases e)
  case (Start c res bins)
  then show ?thesis
    using assms by (cases res) (simp_all add: start_rejected)
next
  case Stop
  then show ?thesis
    using state_stop [of pol w] by auto
next
  case (StopEvent mr chunk)
  then show ?thesis
    by (simp add: fields_stopEvent)
next
  case Pause
  then show ?thesis
    by (simp add: state_pause)
next
  case (Resume bins)
  then show ?thesis
    by (simp add: state_resume)
next
  case (Tick i)
  then show ?thesis
    by (simp add: state_tick)
next
  case (Frame i bins)
  then show ?thesis
    using state_frame [of i bins w] by auto
qed

lemma recordingTime_granted_start:
  assumes "is_granted_start e"
  shows "recordingTime (state (step pol e w)) = 0"
proof (cases e)
  case (Start c res bins)
  then show ?thesis
    using assms by (cases res) (simp_all add: state_start)
qed (use assms in simp_all)

subsection \<open>When a recorder exists\<close>

lemma mediaRecorderRef_step:
  "mediaRecorderRef (step pol e w) = None \<longleftrightarrow> mediaRecorderRef w = None \<and> \<not> is_granted_start e"
proof (cases e)
  case (Start c res bins)
  then show ?thesis
    by (cases res) (simp_all add: recorder_start start_rejected)
qed (simp_all add: mediaRecorderRef_stop fields_stopEvent recorder_pause recorder_resume
    fields_tick fields_frame)

lemma mediaRecorderRef_run:
  "mediaRecorderRef (run pol es w) = None \<longleftrightarrow>
     mediaRecorderRef w = None \<and> \<not> list_ex is_granted_start es"
  by (induction es arbitrary: w) (auto simp: mediaRecorderRef_step)

subsection \<open>The metering invariant\<close>

lemma meter_inv_init: "meter_inv init"
  by (simp add: meter_inv_def init_def)

lemma meter_inv_start: "meter_inv w \<Longrightarrow> meter_inv (snd (startRecording c res bins w))"
  using normalizedLevel_bounds [of "getByteFrequencyData bins frequencyBinCount"]
  by (cases res; cases c)
    (auto simp: meter_inv_def state_start frames_start analyserRef_start start_rejected)

lemma meter_inv_cleanUp: "meter_inv w \<Longrightarrow> meter_inv (cleanUp w)"
  using set_frames_cleanUp [of w]
  by (auto simp: meter_inv_def state_cleanUp analyserRef_cleanUp)

lemma meter_inv_other_fields [simp]:
  "meter_inv (w\<lparr> recorderState := r \<rparr>) = meter_inv w"
  "meter_inv (w\<lparr> onstop := h \<rparr>) = meter_inv w"
  "meter_inv (w\<lparr> promises := ps \<rparr>) = meter_inv w"
  "meter_inv (w\<lparr> stopQueue := ts \<rparr>) = meter_inv w"
  by (simp_all add: meter_inv_def)

lemma meter_inv_stop: "meter_inv w \<Longrightarrow> meter_inv (snd (stopRecording pol w))"
  by (rule stop_cases [where w = w and pol = pol]) (simp_all add: meter_inv_cleanUp)

lemma meter_inv_stopEvent: "meter_inv w \<Longrightarrow> meter_inv (stopEvent mr chunk w)"
  by (simp add: meter_inv_def fields_stopEvent)

lemma meter_inv_pause:
  assumes "meter_inv w"
  shows "meter_inv (snd (pauseRecording w))"
proof (cases "recorderActive w \<and> isRecording (state w)")
  case True
  then show ?thesis
    using assms frames_pause [of w]
    by (auto simp: meter_inv_def state_pause analyserRef_pause)
next
  case False
  then show ?thesis
    using assms by (simp add: pause_without_session)
qed

lemma meter_inv_resume: "meter_inv w \<Longrightarrow> meter_inv (snd (resumeRecording bins w))"
  using normalizedLevel_bounds [of "getByteFrequencyData bins frequencyBinCount"]
  by (auto simp: meter_inv_def state_resume frames_resume analyserRef_resume)

lemma meter_inv_tick: "meter_inv w \<Longrightarrow> meter_inv (tick i w)"
  by (simp add: meter_inv_def tick_def)

lemma meter_inv_frame:
  assumes "meter_inv w"
  shows "meter_inv (frame i bins w)"
proof (cases "find (\<lambda>f. fst f = i) (frames w)")
  case None
  then show ?thesis
    using assms by (simp add: frame_def)
next
  case (Some f)
  then have mem: "f \<in> set (frames w)"
    by (auto simp: find_Some_iff)
  with assms have cap: "snd f = (True, False)" and an: "analyserRef w \<noteq> None"
    by (auto simp: meter_inv_def)
  from assms have sub: "\<forall>g \<in> set (filter (\<lambda>f. fst f \<noteq> i) (frames w)). snd g = (True, False)"
    by (simp add: meter_inv_def)
  have "frame i bins w = updateAudioLevel (True, False) bins (cancelAnimationFrame i w)"
    using Some cap by (simp add: frame_def)
  then show ?thesis
    using assms an sub normalizedLevel_bounds [of "getByteFrequencyData bins frequencyBinCount"]
    by (simp add: meter_inv_def state_updateAudioLevel frames_updateAudioLevel
        analyserRef_updateAudioLevel cancelAnimationFrame_def)
qed

lemma meter_inv_step: "meter_inv w \<Longrightarrow> meter_inv (step pol e w)"
  by (cases e)
    (simp_all add: meter_inv_start meter_inv_stop meter_inv_stopEvent meter_inv_pause
      meter_inv_resume meter_inv_tick meter_inv_frame)

lemma meter_inv_run: "meter_inv w \<Longrightarrow> meter_inv (run pol es w)"
  by (induction es arbitrary: w) (simp_all add: meter_inv_step)

lemma meter_inv_reachable: "meter_inv (run pol es init)"
  by (rule meter_inv_run) (rule meter_inv_init)

subsection \<open>The promises of \<open>stopRecording\<close>\<close>

lemma promises_stop:
  obtains x where "promises (snd (stopRecording pol w)) = promises w @ [x]"
  by (rule stop_cases [where w = w and pol = pol]) (simp_all add: settling_cleanUp)

lemma length_promises_stopEvent:
  "length (promises (stopEvent mr chunk w)) = length (promises w)"
  by (simp add: stopEvent_def resolve_def Let_def split: option.splits)

lemma promises_stopEvent_other:
  "onstop w mr \<noteq> Some p \<Longrightarrow> promises (stopEvent mr chunk w) ! p = promises w ! p"
  by (auto simp: stopEvent_def resolve_def Let_def split: option.splits)

lemma promises_stopEvent:
  "promises (stopEvent mr chunk w) ! p = promises w ! p \<or>
   promises w ! p = Pending \<and>
   promises (stopEvent mr chunk w) ! p = Fulfilled (Some (concat (audioChunksRef w) @ chunk))"
  by (cases "p = the (onstop w mr)")
    (auto simp: stopEvent_def resolve_def Let_def split: option.splits)

lemma stopQueue_stopEvent: "set (stopQueue (stopEvent mr chunk w)) \<subseteq> set (stopQueue w)"
  using set_remove1_subset [of mr "stopQueue w"]
  by (auto simp: stopEvent_def resolve_def Let_def split: option.splits)

lemma promise_step:
  assumes "p < length (promises w)"
  shows "p < length (promises (step pol e w)) \<and>
         (promises (step pol e w) ! p = promises w ! p \<or>
          promises w ! p = Pending \<and> (\<exists>b. promises (step pol e w) ! p = Fulfilled (Some b)))"
proof (cases e)
  case (Start c res bins)
  then show ?thesis
    using assms by (simp add: settling_start)
next
  case Stop
  obtain x where "promises (snd (stopRecording pol w)) = promises w @ [x]"
    by (rule promises_stop)
  then show ?thesis
    using assms Stop by (simp add: nth_append)
next
  case (StopEvent mr chunk)
  then show ?thesis
    using assms promises_stopEvent [of mr chunk w p]
    by (auto simp: length_promises_stopEvent)
next
  case Pause
  then show ?thesis
    using assms by (simp add: settling_pause)
next
  case (Resume bins)
  then show ?thesis
    using assms by (simp add: settling_resume)
next
  case (Tick i)
  then show ?thesis
    using assms by (simp add: fields_tick)
next
  case (Frame i bins)
  then show ?thesis
    using assms by (simp add: fields_frame)
qed

lemma promise_settled_run:
  "p < length (promises w) \<Longrightarrow> promises w ! p \<noteq> Pending \<Longrightarrow>
   p < length (promises (run pol es w)) \<and> promises (run pol es w) ! p = promises w ! p"
proof (induction es arbitrary: w)
  case Nil
  then show ?case by simp
next
  case (Cons e es)
  from promise_step [OF Cons.prems(1), of pol e] Cons.prems(2)
  have "p < length (promises (step pol e w))" "promises (step pol e w) ! p = promises w ! p"
    by auto
  with Cons.IH [of "step pol e w"] Cons.prems(2) show ?case
    by simp
qed

lemma promise_not_null_run:
  "p < length (promises w) \<Longrightarrow> promises w ! p \<noteq> Fulfilled None \<Longrightarrow>
   p < length (promises (run pol es w)) \<and> promises (run pol es w) ! p \<noteq> Fulfilled None"
proof (induction es arbitrary: w)
  case Nil
  then show ?case by simp
next
  case (Cons e es)
  from promise_step [OF Cons.prems(1), of pol e] Cons.prems(2)
  have "p < length (promises (step pol e w))" "promises (step pol e w) ! p \<noteq> Fulfilled None"
    by auto
  with Cons.IH [of "step pol e w"] show ?case
    by simp
qed

lemma stop_null_iff:
  "promises (run pol es (snd (stopRecording pol w))) ! fst (stopRecording pol w) = Fulfilled None
     \<longleftrightarrow> mediaRecorderRef w = None"
proof (rule stop_cases [where w = w and pol = pol])
  assume n: "mediaRecorderRef w = None"
    and s: "stopRecording pol w =
      (length (promises w), w\<lparr> promises := promises w @ [Fulfilled None] \<rparr>)"
  have "promises (run pol es (snd (stopRecording pol w))) ! length (promises w) =
        promises (snd (stopRecording pol w)) ! length (promises w)"
    using promise_settled_run [of "length (promises w)" "snd (stopRecording pol w)" pol es]
    by (simp add: s)
  then show ?thesis
    using n by (simp add: s)
next
  fix mr
  assume r: "mediaRecorderRef w = Some mr"
    and s: "stopRecording pol w =
      (length (promises w),
       w\<lparr> onstop := (onstop w)(mr := Some (length (promises w))),
          promises := promises w @ [RejectedWith InvalidStateError] \<rparr>)"
  show ?thesis
    using promise_not_null_run [of "length (promises w)" "snd (stopRecording pol w)" pol es] r
    by (simp add: s)
next
  fix mr
  assume r: "mediaRecorderRef w = Some mr"
    and s: "stopRecording pol w =
      (length (promises w),
       cleanUp (w\<lparr> onstop := (onstop w)(mr := Some (length (promises w))),
                   promises := promises w @ [Pending] \<rparr>))"
  show ?thesis
    using promise_not_null_run [of "length (promises w)" "snd (stopRecording pol w)" pol es] r
    by (simp add: s settling_cleanUp)
next
  fix mr
  assume r: "mediaRecorderRef w = Some mr"
    and s: "stopRecording pol w =
      (length (promises w),
       cleanUp (w\<lparr> onstop := (onstop w)(mr := Some (length (promises w))),
                   promises := promises w @ [Pending],
                   recorderState := (recorderState w)(mr := inactive),
                   stopQueue := stopQueue w @ [mr] \<rparr>))"
  show ?thesis
    using promise_not_null_run [of "length (promises w)" "snd (stopRecording pol w)" pol es] r
    by (simp add: s settling_cleanUp)
qed

lemma stop_then_event:
  assumes "mediaRecorderRef w = Some mr" "recorderState w mr \<noteq> inactive"
  shows "promises (stopEvent mr chunk (snd (stopRecording pol w))) ! fst (stopRecording pol w) =
           Fulfilled (Some (concat (audioChunksRef w) @ chunk))"
  by (simp add: stop_active [OF assms] stopEvent_def resolve_def settling_cleanUp
      recorder_cleanUp Let_def)

subsection \<open>Promises that nothing can settle\<close>

lemma orphaned_kept:
  assumes "orphaned p w"
    and "promises w' = promises w"
    and "onstop w' = onstop w"
    and "set (stopQueue w') \<subseteq> set (stopQueue w)"
    and "nextId w \<le> nextId w'"
    and "\<And>m. recorderState w m = inactive \<Longrightarrow> m < nextId w \<Longrightarrow> recorderState w' m = inactive"
  shows "orphaned p w'"
proof -
  have "p < length (promises w')" "promises w' ! p = Pending"
    using assms(1,2) by (simp_all add: orphaned_def)
  moreover have "recorderState w' m = inactive \<and> m \<notin> set (stopQueue w') \<and> m < nextId w'"
    if "onstop w' m = Some p" for m
  proof -
    from that assms(1,3)
    have "recorderState w m = inactive" "m \<notin> set (stopQueue w)" "m < nextId w"
      by (simp_all add: orphaned_def)
    then show ?thesis
      using assms(4,5,6) by auto
  qed
  ultimately show ?thesis
    by (simp add: orphaned_def)
qed

lemma orphaned_start:
  assumes "orphaned p w"
  shows "orphaned p (snd (startRecording c res bins w))"
proof (cases res)
  case Granted
  show ?thesis
    unfolding Granted using assms
    by (rule orphaned_kept) (simp_all add: settling_start recorder_start)
next
  case (Rejected e)
  then show ?thesis
    using assms by (simp add: orphaned_def start_rejected)
qed

lemma orphaned_stop:
  assumes "orphaned p w"
  shows "orphaned p (snd (stopRecording pol w))"
  using assms
  by (rule_tac stop_cases [where w = w and pol = pol])
    (auto simp: orphaned_def settling_cleanUp recorder_cleanUp nth_append)

lemma orphaned_stopEvent:
  assumes "orphaned p w"
  shows "orphaned p (stopEvent mr chunk w)"
proof (cases "mr \<in> set (stopQueue w)")
  case True
  with assms have "onstop w mr \<noteq> Some p"
    by (auto simp: orphaned_def)
  then have "promises (stopEvent mr chunk w) ! p = promises w ! p"
    by (rule promises_stopEvent_other)
  then show ?thesis
    using assms stopQueue_stopEvent [of mr chunk w]
    by (auto simp: orphaned_def length_promises_stopEvent fields_stopEvent)
next
  case False
  then show ?thesis
    using assms by (simp add: stopEvent_def)
qed

lemma orphaned_pause: "orphaned p w \<Longrightarrow> orphaned p (snd (pauseRecording w))"
  by (erule orphaned_kept) (simp_all add: settling_pause recorder_pause)

lemma orphaned_resume: "orphaned p w \<Longrightarrow> orphaned p (snd (resumeRecording bins w))"
  by (erule orphaned_kept) (simp_all add: settling_resume recorder_resume)

lemma orphaned_tick: "orphaned p w \<Longrightarrow> orphaned p (tick i w)"
  by (simp add: orphaned_def fields_tick)

lemma orphaned_frame: "orphaned p w \<Longrightarrow> orphaned p (frame i bins w)"
  by (erule orphaned_kept) (simp_all add: fields_frame)

lemma orphaned_step: "orphaned p w \<Longrightarrow> orphaned p (step pol e w)"
  by (cases e)
    (simp_all add: orphaned_start orphaned_stop orphaned_stopEvent orphaned_pause
      orphaned_resume orphaned_tick orphaned_frame)

lemma orphaned_run: "orphaned p w \<Longrightarrow> orphaned p (run pol es w)"
  by (induction es arbitrary: w) (simp_all add: orphaned_step)

lemma orphaned_pending: "orphaned p w \<Longrightarrow> promises (run pol es w) ! p = Pending"
  using orphaned_run [of p w pol es] by (simp add: orphaned_def)

subsection \<open>A promise waiting for its stop event\<close>

lemma awaiting_kept:
  assumes "awaiting p mr w"
    and "promises w' = promises w"
    and "onstop w' = onstop w"
    and "stopQueue w' = stopQueue w"
  shows "awaiting p mr w'"
  using assms by (simp add: awaiting_def)

lemma stopQueue_stopEvent_eq:
  "stopQueue (stopEvent m chunk w) =
     (if m \<in> set (stopQueue w) then remove1 m (stopQueue w) else stopQueue w)"
  by (simp add: stopEvent_def resolve_def Let_def split: option.splits)

lemma awaiting_stopEvent_other:
  assumes "awaiting p mr w"
  shows "awaiting p mr (stopEvent m chunk w) \<or>
         (\<exists>b. promises (stopEvent m chunk w) ! p = Fulfilled (Some b))"
proof (cases "\<exists>b. promises w ! p = Fulfilled (Some b)")
  case True
  then show ?thesis
    using promises_stopEvent [of m chunk w p] by auto
next
  case False
  with assms have pend: "promises w ! p = Pending" "onstop w mr = Some p"
      "mr \<in> set (stopQueue w)" "p < length (promises w)"
    by (auto simp: awaiting_def)
  show ?thesis
  proof (cases "m = mr")
    case True
    then show ?thesis
      using pend by (simp add: stopEvent_def resolve_def Let_def)
  next
    case False
    then have "mr \<in> set (stopQueue (stopEvent m chunk w))"
      using pend by (simp add: stopQueue_stopEvent_eq)
    then show ?thesis
      using pend promises_stopEvent [of m chunk w p]
      by (auto simp: awaiting_def length_promises_stopEvent fields_stopEvent)
  qed
qed

lemma awaiting_stopEvent:
  assumes "awaiting p mr w"
  shows "awaiting p mr (stopEvent m chunk w)"
  using assms awaiting_stopEvent_other [OF assms, of m chunk]
  by (auto simp: awaiting_def length_promises_stopEvent)

lemma awaiting_step:
  assumes "awaiting p mr w" "e \<noteq> Stop"
  shows "awaiting p mr (step pol e w)"
proof (cases e)
  case (Start c res bins)
  then show ?thesis
    using assms(1) by (simp add: awaiting_kept settling_start)
next
  case Stop
  then show ?thesis
    using assms(2) by simp
next
  case (StopEvent m chunk)
  then show ?thesis
    using assms(1) by (simp add: awaiting_stopEvent)
next
  case Pause
  then show ?thesis
    using assms(1) by (simp add: awaiting_kept settling_pause)
next
  case (Resume bins)
  then show ?thesis
    using assms(1) by (simp add: awaiting_kept settling_resume)
next
  case (Tick i)
  then show ?thesis
    using assms(1) by (simp add: awaiting_kept fields_tick)
next
  case (Frame i bins)
  then show ?thesis
    using assms(1) by (simp add: awaiting_kept fields_frame)
qed

lemma awaiting_run:
  "awaiting p mr w \<Longrightarrow> Stop \<notin> set es \<Longrightarrow> awaiting p mr (run pol es w)"
proof (induction es arbitrary: w)
  case Nil
  then show ?case by simp
next
  case (Cons e es)
  from Cons.prems have "e \<noteq> Stop" "Stop \<notin> set es"
    by auto
  with Cons.prems(1) Cons.IH [of "step pol e w"] show ?case
    by (simp add: awaiting_step)
qed

lemma awaiting_fires:
  assumes "awaiting p mr w"
  shows "\<exists>b. promises (stopEvent mr chunk w) ! p = Fulfilled (Some b)"
proof (cases "\<exists>b. promises w ! p = Fulfilled (Some b)")
  case True
  then show ?thesis
    using promises_stopEvent [of mr chunk w p] by auto
next
  case False
  with assms have "promises w ! p = Pending" "onstop w mr = Some p"
      "mr \<in> set (stopQueue w)" "p < length (promises w)"
    by (auto simp: awaiting_def)
  then show ?thesis
    by (simp add: stopEvent_def resolve_def Let_def)
qed

lemma awaiting_stop:
  assumes "mediaRecorderRef w = Some mr" "recorderState w mr \<noteq> inactive"
  shows "awaiting (fst (stopRecording pol w)) mr (snd (stopRecording pol w))"
  by (simp add: stop_active [OF assms] awaiting_def settling_cleanUp)

lemma stop_resolves:
  assumes "mediaRecorderRef w = Some mr" "recorderState w mr \<noteq> inactive" "Stop \<notin> set es"
  shows "\<exists>b. promises (run pol (es @ [StopEvent mr chunk]) (snd (stopRecording pol w)))
              ! fst (stopRecording pol w) = Fulfilled (Some b)"
  using awaiting_fires [OF awaiting_run [OF awaiting_stop [OF assms(1,2)] assms(3)]]
  by (simp add: run_append)

section \<open>The claims\<close>

subsection \<open>C1: the elapsed-time counter\<close>

text \<open>
  Claim C1: \<open>recordingTime\<close> goes up by exactly 1 per second while recording and not
  paused, and does not go up while the session is paused or after it is stopped.

  The interval is set up by \<open>startRecording\<close> (line 69) and cleared only by the clean-up
  of \<open>stopRecording\<close> (line 100). \<open>pauseRecording\<close> cancels the pending animation frame
  but leaves the interval running, so the counter keeps counting during a pause: after
  start and pause the interval with handle 4 is still live, the status is paused with
  \<open>recordingTime = 0\<close>, and the next tick of that interval makes it 1.
\<close>

theorem C1_tick_counts_while_paused:
  "isPaused (state (run pol [Start (False, False) Granted [], Pause] init)) \<and>
   recordingTime (state (run pol [Start (False, False) Granted [], Pause] init)) = 0 \<and>
   intervals (run pol [Start (False, False) Granted [], Pause] init) = [4] \<and>
   isPaused (state (run pol [Start (False, False) Granted [], Pause, Tick 4] init)) \<and>
   recordingTime (state (run pol [Start (False, False) Granted [], Pause, Tick 4] init)) = 1"
  by (simp add: hook_defs init_def level_silent)

subsection \<open>C2: release of the capture device\<close>

text \<open>
  Claim C2: for every complete session the audio input device handle is released exactly
  once, on every exit path of \<open>stopRecording\<close>.

  The device handle is the stream returned by \<open>getUserMedia\<close> (line 43). The clean-up of
  \<open>stopRecording\<close> clears the interval, cancels the animation frame and closes the audio
  context, but never stops the tracks of the stream, and no other operation does: after
  a start and a stop, and also after the stop event of the recorder has delivered the
  payload, the stream opened by the start, with handle 1, is still live, although the
  audio context of the session has been closed.
\<close>

theorem C2_stream_live_after_stop:
  "liveStreams (run pol [Start (False, False) Granted bins, Stop] init) = [1] \<and>
   liveStreams (run pol [Start (False, False) Granted bins, Stop, StopEvent 3 chunk] init) = [1] \<and>
   openContexts (run pol [Start (False, False) Granted bins, Stop, StopEvent 3 chunk] init) = [] \<and>
   \<not> isRecording (state (run pol [Start (False, False) Granted bins, Stop, StopEvent 3 chunk] init)) \<and>
   promises (run pol [Start (False, False) Granted bins, Stop, StopEvent 3 chunk] init) =
     [Fulfilled (Some chunk)]"
  by (simp add: hook_defs init_def)

subsection \<open>C3: stopping twice\<close>

text \<open>
  Claim C3: of two calls of \<open>stopRecording\<close> in a row the first returns the payload and
  the second returns null and does not throw.

  Line 86 returns null when \<open>mediaRecorderRef.current\<close> is null, but the ref is never
  set back to null after a stop. When the first call has been awaited, the second call
  calls \<open>stop()\<close> on the recorder that the first call made inactive: where the platform
  throws, the second promise is rejected with \<open>InvalidStateError\<close>; where it does not, no
  \<open>stop\<close> event follows and the second promise stays pending whatever happens later
  (\<open>es\<close>). When the second call is made before the stop event of the first, it is
  rejected in the same way where the platform throws, and otherwise receives the
  payload in place of the first call. In no case is the second promise fulfilled with
  null.
\<close>

theorem C3_second_stop_not_null:
  "promises (run ThrowsWhenInactive
      ([Start (False, False) Granted bins, Stop, StopEvent 3 c1, Stop] @ es) init) ! 0 =
     Fulfilled (Some c1) \<and>
   promises (run ThrowsWhenInactive
      ([Start (False, False) Granted bins, Stop, StopEvent 3 c1, Stop] @ es) init) ! 1 =
     RejectedWith InvalidStateError \<and>
   promises (run IgnoresWhenInactive
      ([Start (False, False) Granted bins, Stop, StopEvent 3 c1, Stop] @ es) init) ! 0 =
     Fulfilled (Some c1) \<and>
   promises (run IgnoresWhenInactive
      ([Start (False, False) Granted bins, Stop, StopEvent 3 c1, Stop] @ es) init) ! 1 =
     Pending \<and>
   promises (run ThrowsWhenInactive
      ([Start (False, False) Granted bins, Stop, Stop, StopEvent 3 c1] @ es) init) ! 1 =
     RejectedWith InvalidStateError \<and>
   promises (run IgnoresWhenInactive
      ([Start (False, False) Granted bins, Stop, Stop, StopEvent 3 c1] @ es) init) ! 1 =
     Fulfilled (Some c1)"
proof -
  define wat where "wat = run ThrowsWhenInactive
    [Start (False, False) Granted bins, Stop, StopEvent 3 c1, Stop] init"
  define wai where "wai = run IgnoresWhenInactive
    [Start (False, False) Granted bins, Stop, StopEvent 3 c1, Stop] init"
  define wbt where "wbt = run ThrowsWhenInactive
    [Start (False, False) Granted bins, Stop, Stop, StopEvent 3 c1] init"
  define wbi where "wbi = run IgnoresWhenInactive
    [Start (False, False) Granted bins, Stop, Stop, StopEvent 3 c1] init"
  have awaited_throws: "promises wat = [Fulfilled (Some c1), RejectedWith InvalidStateError]"
    unfolding wat_def by (simp add: hook_defs init_def)
  have awaited_ignores: "promises wai = [Fulfilled (Some c1), Pending]"
    unfolding wai_def by (simp add: hook_defs init_def)
  have orph: "orphaned 1 wai"
    unfolding wai_def by (simp add: orphaned_def hook_defs init_def)
  have at_once_throws: "promises wbt = [Pending, RejectedWith InvalidStateError]"
    unfolding wbt_def by (simp add: hook_defs init_def)
  have at_once_ignores: "promises wbi = [Pending, Fulfilled (Some c1)]"
    unfolding wbi_def by (simp add: hook_defs init_def)
  have "promises (run ThrowsWhenInactive es wat) ! 0 = Fulfilled (Some c1)"
    using promise_settled_run [of 0 wat ThrowsWhenInactive es] by (simp add: awaited_throws)
  moreover have "promises (run ThrowsWhenInactive es wat) ! 1 = RejectedWith InvalidStateError"
    using promise_settled_run [of 1 wat ThrowsWhenInactive es] by (simp add: awaited_throws)
  moreover have "promises (run IgnoresWhenInactive es wai) ! 0 = Fulfilled (Some c1)"
    using promise_settled_run [of 0 wai IgnoresWhenInactive es] by (simp add: awaited_ignores)
  moreover have "promises (run IgnoresWhenInactive es wai) ! 1 = Pending"
    using orph by (rule orphaned_pending)
  moreover have "promises (run ThrowsWhenInactive es wbt) ! 1 = RejectedWith InvalidStateError"
    using promise_settled_run [of 1 wbt ThrowsWhenInactive es] by (simp add: at_once_throws)
  moreover have "promises (run IgnoresWhenInactive es wbi) ! 1 = Fulfilled (Some c1)"
    using promise_settled_run [of 1 wbi IgnoresWhenInactive es] by (simp add: at_once_ignores)
  ultimately show ?thesis
    unfolding run_append wat_def wai_def wbt_def wbi_def by blast
qed

subsection \<open>C4: the status after a successful start\<close>

text \<open>
  Claim C4: after every successful start the status is exactly
  \<open>{isRecording: true, isPaused: false, elapsedSeconds: 0, level: 0}\<close>, whatever the
  status was before.

  Counterexample to C4: line 62 spreads the previous status and sets only \<open>isRecording\<close>
  and \<open>recordingTime\<close>. A start issued while the session is paused leaves \<open>isPaused\<close>
  true (here with a silent first frame, so that only \<open>isPaused\<close> differs).
\<close>

theorem C4_start_while_paused_counterexample:
  "state (run ThrowsWhenInactive
      [Start (False, False) Granted [], Pause, Start (True, True) Granted []] init) \<noteq>
     \<lparr> isRecording = True, isPaused = False, recordingTime = 0, audioLevel = 0 \<rparr>"
  by (simp add: hook_defs init_def level_silent)

text \<open>
  Claim C4 as amended: after a successful start \<open>isRecording\<close> is true and
  \<open>recordingTime\<close> is 0; \<open>isPaused\<close> keeps the value it had before the call; and
  \<open>audioLevel\<close> is the sample that the metering call of line 77 publishes from the first
  analysis frame. When \<open>isPaused\<close> was false before the call and that frame is silent,
  the status is exactly the one of the claim. This holds for a call from any render.
\<close>

theorem C4_status_after_start:
  "state (snd (startRecording c Granted bins w)) =
     \<lparr> isRecording = True, isPaused = isPaused (state w), recordingTime = 0,
       audioLevel = normalizedLevel (getByteFrequencyData bins frequencyBinCount) \<rparr> \<and>
   (\<not> isPaused (state w) \<longrightarrow>
      state (snd (startRecording c Granted [] w)) =
        \<lparr> isRecording = True, isPaused = False, recordingTime = 0, audioLevel = 0 \<rparr>)"
  by (simp add: state_start level_silent)

text \<open>
  Witness for C4: the first start of the hook, from the initial status and with a silent
  frame.
\<close>

theorem C4_status_after_start_witness:
  "\<not> isPaused (state init) \<and>
   state (snd (startRecording (False, False) Granted [] init)) =
     \<lparr> isRecording = True, isPaused = False, recordingTime = 0, audioLevel = 0 \<rparr>"
proof -
  have h: "\<not> isPaused (state init)"
    by (simp add: init_def)
  with C4_status_after_start [of "(False, False)" "[]" init] show ?thesis
    by blast
qed

subsection \<open>C5: the level\<close>

text \<open>
  Claim C5: in every reachable status the level lies in \<open>[0,1]\<close>; each published sample
  is \<open>min(average / 128, 1)\<close> over the current analysis frame; and whenever
  \<open>isRecording\<close> is false the level is 0.

  Counterexample to C5: a start called from a render that is recording and not paused
  schedules a frame request whose closure reschedules itself for ever, and stores only
  the latest handle in \<open>animationFrameRef\<close>. After three starts in a row, the second and
  third called from such a render, two requests are pending (handles 9 and 14); the stop
  cancels the one in the ref (14), and when the other one fires on a loud frame it
  publishes level 1 although \<open>isRecording\<close> is false.
\<close>

theorem C5_level_after_stop_counterexample:
  "\<not> isRecording (state (run ThrowsWhenInactive
        [Start (False, False) Granted [], Start (True, False) Granted [],
         Start (True, False) Granted [], Stop, Frame 9 (replicate 128 255)] init)) \<and>
   audioLevel (state (run ThrowsWhenInactive
        [Start (False, False) Granted [], Start (True, False) Granted [],
         Start (True, False) Granted [], Stop, Frame 9 (replicate 128 255)] init)) = 1"
  by (simp add: hook_defs init_def level_silent level_loud)

text \<open>
  Claim C5 as amended: in every reachable status the level lies in \<open>[0,1]\<close>; each sample
  published by the metering loop equals \<open>min(average / 128, 1)\<close> over the current
  analysis frame of 128 bins; and whenever \<open>isRecording\<close> is false and no frame request
  is pending, the level is 0.
\<close>

theorem C5_level_range_and_reset:
  "0 \<le> audioLevel (state (run pol es init)) \<and>
   audioLevel (state (run pol es init)) \<le> 1 \<and>
   (analyserRef w \<noteq> None \<longrightarrow>
      audioLevel (state (updateAudioLevel c bins w)) =
        min (average (getByteFrequencyData bins frequencyBinCount) / 128) 1) \<and>
   length (getByteFrequencyData bins frequencyBinCount) = 128 \<and>
   (\<not> isRecording (state (run pol es init)) \<and> frames (run pol es init) = [] \<longrightarrow>
      audioLevel (state (run pol es init)) = 0)"
  using meter_inv_reachable [of pol es]
  by (auto simp: meter_inv_def state_updateAudioLevel normalizedLevel_def
      length_getByteFrequencyData frequencyBinCount_128)

text \<open>
  Witness for C5: a session started on a frame with one loud bin and then stopped. An
  analyser exists, the status is not recording, no frame request is pending, and the
  level is 0.
\<close>

theorem C5_level_range_and_reset_witness:
  "analyserRef (run ThrowsWhenInactive [Start (False, False) Granted [255], Stop] init) \<noteq> None \<and>
   audioLevel (state (updateAudioLevel (True, False) []
      (run ThrowsWhenInactive [Start (False, False) Granted [255], Stop] init))) =
     min (average (getByteFrequencyData [] frequencyBinCount) / 128) 1 \<and>
   \<not> isRecording (state (run ThrowsWhenInactive [Start (False, False) Granted [255], Stop] init)) \<and>
   frames (run ThrowsWhenInactive [Start (False, False) Granted [255], Stop] init) = [] \<and>
   audioLevel (state (run ThrowsWhenInactive [Start (False, False) Granted [255], Stop] init)) = 0"
proof -
  have a: "analyserRef (run ThrowsWhenInactive [Start (False, False) Granted [255], Stop] init)
      \<noteq> None"
    and r: "\<not> isRecording (state (run ThrowsWhenInactive
      [Start (False, False) Granted [255], Stop] init))"
    and f: "frames (run ThrowsWhenInactive [Start (False, False) Granted [255], Stop] init) = []"
    by (simp_all add: hook_defs init_def)
  from C5_level_range_and_reset [of ThrowsWhenInactive "[Start (False, False) Granted [255], Stop]"
      "run ThrowsWhenInactive [Start (False, False) Granted [255], Stop] init" "(True, False)" "[]"]
    a r f
  show ?thesis
    by blast
qed

subsection \<open>C6: a start that is refused the device\<close>

text \<open>
  Claim C6: when the device is denied, \<open>startRecording\<close> reports the failure to the
  caller, leaves the status unchanged and leaves no partial recording state behind.

  Counterexample to C6: the rejection is caught at line 79 and only logged. The promise
  that the caller holds is fulfilled, exactly as for a start that was granted the
  device, so the caller is told nothing.
\<close>

theorem C6_denied_start_returns_normally_counterexample:
  "fst (startRecording (False, False) (Rejected NotAllowedError) [] init) = Returns () \<and>
   fst (startRecording (False, False) Granted [] init) = Returns ()"
  by (simp add: startRecording_def Let_def)

text \<open>
  Claim C6 as amended: when \<open>getUserMedia\<close> rejects, \<open>startRecording\<close> logs the error to
  the console and returns normally, without reporting anything to the caller; the
  status, the recorder ref, the intervals, the pending frames, the streams and the audio
  contexts are all as they were, so no partial recording state exists afterwards.
\<close>

theorem C6_denied_start_changes_nothing:
  "startRecording c (Rejected e) bins w =
     (Returns (), w\<lparr> console := console w @ [''Error starting recording:''] \<rparr>) \<and>
   state (snd (startRecording c (Rejected e) bins w)) = state w \<and>
   mediaRecorderRef (snd (startRecording c (Rejected e) bins w)) = mediaRecorderRef w \<and>
   intervals (snd (startRecording c (Rejected e) bins w)) = intervals w \<and>
   frames (snd (startRecording c (Rejected e) bins w)) = frames w \<and>
   liveStreams (snd (startRecording c (Rejected e) bins w)) = liveStreams w \<and>
   openContexts (snd (startRecording c (Rejected e) bins w)) = openContexts w"
  by (simp add: start_rejected)

subsection \<open>C7: a start during an active session\<close>

text \<open>
  Claim C7: a start issued while a session is active first tears down the device handle
  and the timers of that session, so that two sessions' resources are never live at
  once.

  Counterexample to C7: \<open>startRecording\<close> contains no teardown. After two starts in a
  row two intervals, two streams and two audio contexts are live, whether the second
  start was called from the render of the running session (closure flags true, false)
  or, as in a double click, from the same render as the first (flags false, false).
\<close>

theorem C7_two_sessions_live_counterexample:
  "intervals (run ThrowsWhenInactive
      [Start (False, False) Granted [], Start (True, False) Granted []] init) = [8, 4] \<and>
   liveStreams (run ThrowsWhenInactive
      [Start (False, False) Granted [], Start (True, False) Granted []] init) = [5, 1] \<and>
   openContexts (run ThrowsWhenInactive
      [Start (False, False) Granted [], Start (True, False) Granted []] init) = [6, 2] \<and>
   intervals (run ThrowsWhenInactive
      [Start (False, False) Granted [], Start (False, False) Granted []] init) = [8, 4] \<and>
   liveStreams (run ThrowsWhenInactive
      [Start (False, False) Granted [], Start (False, False) Granted []] init) = [5, 1] \<and>
   openContexts (run ThrowsWhenInactive
      [Start (False, False) Granted [], Start (False, False) Granted []] init) = [6, 2]"
  by (simp add: hook_defs init_def level_silent)

text \<open>
  Claim C7 as amended: a successful start tears nothing down. Every interval, stream,
  audio context and pending frame request that is live before the device is granted is
  still live afterwards, and the start adds one interval, one stream and one audio
  context of its own, and a frame request exactly when the render from which it was
  called was recording and not paused. Resources of a session that is still active are
  therefore left live beside those of the new one.
\<close>

theorem C7_start_tears_nothing_down:
  "intervals (snd (startRecording c Granted bins w)) = (nextId w + 3) # intervals w \<and>
   liveStreams (snd (startRecording c Granted bins w)) = nextId w # liveStreams w \<and>
   openContexts (snd (startRecording c Granted bins w)) = (nextId w + 1) # openContexts w \<and>
   frames (snd (startRecording c Granted bins w)) =
     frames w @ (if fst c \<and> \<not> snd c then [(nextId w + 4, c)] else [])"
  by (simp add: startRecording_def updateAudioLevel_def requestAnimationFrame_def Let_def)

subsection \<open>C8: paused implies recording\<close>

text \<open>
  Claim C8: \<open>isPaused\<close> implies \<open>isRecording\<close> in the initial status and after every
  sequence of operations, callbacks and events, \<open>pauseRecording\<close> and \<open>resumeRecording\<close>
  being called from the current render and \<open>startRecording\<close> from any render.
\<close>

theorem C8_paused_implies_recording:
  "isPaused (state (run pol es init)) \<longrightarrow> isRecording (state (run pol es init))"
  by (rule paused_recording_run) (simp add: init_def)

text \<open>Witness for C8: after a start and a pause the status is paused, and recording.\<close>

theorem C8_paused_implies_recording_witness:
  "isPaused (state (run ThrowsWhenInactive [Start (False, False) Granted [], Pause] init)) \<and>
   isRecording (state (run ThrowsWhenInactive [Start (False, False) Granted [], Pause] init))"
  using C8_paused_implies_recording
    [of ThrowsWhenInactive "[Start (False, False) Granted [], Pause]"]
  by (simp add: hook_defs init_def)

subsection \<open>C9: what a stop resets\<close>

text \<open>
  Claim C9: a stop of an active session sets \<open>isRecording\<close> and \<open>isPaused\<close> to false and
  the level to 0 and leaves \<open>recordingTime\<close> at its last value; \<open>recordingTime\<close> is set
  back to 0 only by a start. A start that is granted the device sets \<open>recordingTime\<close> to
  0, and every other event leaves it as it was or adds 1 to it.
\<close>

theorem C9_stop_keeps_recordingTime:
  "(isRecording (state (run pol es init)) \<longrightarrow>
      state (snd (stopRecording pol (run pol es init))) =
        \<lparr> isRecording = False, isPaused = False,
          recordingTime = recordingTime (state (run pol es init)), audioLevel = 0 \<rparr>) \<and>
   (is_granted_start e \<longrightarrow> recordingTime (state (step pol e w)) = 0) \<and>
   (\<not> is_granted_start e' \<longrightarrow>
      recordingTime (state (step pol e' w)) = recordingTime (state w) \<or>
      recordingTime (state (step pol e' w)) = recordingTime (state w) + 1)"
  using recording_active_reachable [of pol es] state_stop_when_active
    recordingTime_granted_start recordingTime_step
  by blast

text \<open>
  Witness for C9: a session in which one second has elapsed. The stop keeps
  \<open>recordingTime = 1\<close>, and so does a pause; a further start sets it back from 1 to 0.
\<close>

theorem C9_stop_keeps_recordingTime_witness:
  "isRecording (state (run ThrowsWhenInactive [Start (False, False) Granted [], Tick 4] init)) \<and>
   recordingTime (state (run ThrowsWhenInactive
      [Start (False, False) Granted [], Tick 4] init)) = 1 \<and>
   state (snd (stopRecording ThrowsWhenInactive
                 (run ThrowsWhenInactive [Start (False, False) Granted [], Tick 4] init))) =
     \<lparr> isRecording = False, isPaused = False, recordingTime = 1, audioLevel = 0 \<rparr> \<and>
   is_granted_start (Start (True, False) Granted []) \<and>
   recordingTime (state (step ThrowsWhenInactive (Start (True, False) Granted [])
      (run ThrowsWhenInactive [Start (False, False) Granted [], Tick 4] init))) = 0 \<and>
   \<not> is_granted_start Pause \<and>
   recordingTime (state (step ThrowsWhenInactive Pause
                    (run ThrowsWhenInactive [Start (False, False) Granted [], Tick 4] init))) = 1"
proof -
  define w1 where "w1 = run ThrowsWhenInactive [Start (False, False) Granted [], Tick 4] init"
  have r: "isRecording (state w1)" and t: "recordingTime (state w1) = 1"
    unfolding w1_def by (simp_all add: hook_defs init_def level_silent)
  have g: "is_granted_start (Start (True, False) Granted [])"
    and p: "\<not> is_granted_start Pause"
    by simp_all
  have q: "recordingTime (state (step ThrowsWhenInactive Pause w1)) = 1"
    using t by (simp add: state_pause)
  from C9_stop_keeps_recordingTime [of ThrowsWhenInactive
      "[Start (False, False) Granted [], Tick 4]" "Start (True, False) Granted []"
      w1 Pause] r t g p q
  show ?thesis
    unfolding w1_def by simp
qed

subsection \<open>C10: the payload of a stop\<close>

text \<open>
  Claim C10: whenever a recorder exists, a stop resolves to a non-null payload, even when
  no chunk was produced; null is returned only when no recorder was ever created.

  Counterexample to C10: a recorder exists in \<open>mediaRecorderRef\<close> from the first granted
  start on, yet a stop need not resolve. After an awaited first stop, a second stop is
  rejected where the platform throws on an inactive recorder. And of two stops called
  one right after the other on a running recorder, the first is still pending when the
  stop event has been handled and none is queued any more, since the second call replaced
  the \<open>onstop\<close> handler of the first.
\<close>

theorem C10_stop_without_payload_counterexample:
  "mediaRecorderRef (run ThrowsWhenInactive
      [Start (False, False) Granted [], Stop, StopEvent 3 [], Stop] init) \<noteq> None \<and>
   promises (run ThrowsWhenInactive
      [Start (False, False) Granted [], Stop, StopEvent 3 [], Stop] init) ! 1 =
     RejectedWith InvalidStateError \<and>
   mediaRecorderRef (run IgnoresWhenInactive
      [Start (False, False) Granted []] init) \<noteq> None \<and>
   promises (run IgnoresWhenInactive
      [Start (False, False) Granted [], Stop, Stop, StopEvent 3 []] init) ! 0 = Pending \<and>
   stopQueue (run IgnoresWhenInactive
      [Start (False, False) Granted [], Stop, Stop, StopEvent 3 []] init) = []"
  by (simp add: hook_defs init_def)

text \<open>
  Claim C10 as amended: whenever the recorder of the session is active (recording or
  paused), the promise of a stop is fulfilled with a non-null payload when the stop
  event of the recorder is handled, provided that no further stop is called before it
  (whatever else happens in between); when the stop event follows at once, the payload
  is the concatenation of the buffered chunks and the final chunk, which is the empty
  payload when no data was produced. The promise of a stop is ever fulfilled with null
  exactly when \<open>mediaRecorderRef\<close> is null at the call, which is the case exactly when no
  start has been granted the device so far.
\<close>

theorem C10_stop_payload:
  "(mediaRecorderRef w = Some mr \<and> recorderState w mr \<noteq> inactive \<longrightarrow>
      promises (stopEvent mr chunk (snd (stopRecording pol w))) ! fst (stopRecording pol w) =
        Fulfilled (Some (concat (audioChunksRef w) @ chunk))) \<and>
   (mediaRecorderRef w = Some mr \<and> recorderState w mr \<noteq> inactive \<and> Stop \<notin> set es \<longrightarrow>
      (\<exists>b. promises (run pol (es @ [StopEvent mr chunk]) (snd (stopRecording pol w)))
              ! fst (stopRecording pol w) = Fulfilled (Some b))) \<and>
   (promises (run pol es' (snd (stopRecording pol w))) ! fst (stopRecording pol w) =
      Fulfilled None) = (mediaRecorderRef w = None) \<and>
   (mediaRecorderRef (run pol es'' init) = None) = (\<not> list_ex is_granted_start es'')"
  using stop_then_event [of w mr chunk pol] stop_resolves [of w mr es pol chunk]
    stop_null_iff [of pol es' w] mediaRecorderRef_run [of pol es'' init]
  by (simp add: init_def)

text \<open>
  Witness for C10: a session that is stopped before any data was produced. The recorder
  (handle 3) is active and no chunk is buffered; the stop resolves to the empty payload
  when its stop event follows at once, and also when a tick of the interval comes in
  between.
\<close>

theorem C10_stop_payload_witness:
  "mediaRecorderRef (run ThrowsWhenInactive [Start (False, False) Granted []] init) = Some 3 \<and>
   recorderState (run ThrowsWhenInactive [Start (False, False) Granted []] init) 3 \<noteq> inactive \<and>
   Stop \<notin> set [Tick 4] \<and>
   audioChunksRef (run ThrowsWhenInactive [Start (False, False) Granted []] init) = [] \<and>
   promises (stopEvent 3 []
      (snd (stopRecording ThrowsWhenInactive
         (run ThrowsWhenInactive [Start (False, False) Granted []] init))))
     ! fst (stopRecording ThrowsWhenInactive
         (run ThrowsWhenInactive [Start (False, False) Granted []] init)) =
     Fulfilled (Some []) \<and>
   (\<exists>b. promises (run ThrowsWhenInactive ([Tick 4] @ [StopEvent 3 []])
      (snd (stopRecording ThrowsWhenInactive
         (run ThrowsWhenInactive [Start (False, False) Granted []] init))))
     ! fst (stopRecording ThrowsWhenInactive
         (run ThrowsWhenInactive [Start (False, False) Granted []] init)) =
     Fulfilled (Some b))"
proof -
  define w1 where "w1 = run ThrowsWhenInactive [Start (False, False) Granted []] init"
  have m: "mediaRecorderRef w1 = Some 3" and a: "recorderState w1 3 \<noteq> inactive"
    and c: "audioChunksRef w1 = []"
    unfolding w1_def by (simp_all add: hook_defs init_def)
  have s: "Stop \<notin> set [Tick 4]"
    by simp
  from C10_stop_payload [of w1 3 "[]" ThrowsWhenInactive "[Tick 4]"] m a c s
  have "promises (stopEvent 3 [] (snd (stopRecording ThrowsWhenInactive w1)))
          ! fst (stopRecording ThrowsWhenInactive w1) = Fulfilled (Some [])"
    and "\<exists>b. promises (run ThrowsWhenInactive ([Tick 4] @ [StopEvent 3 []])
            (snd (stopRecording ThrowsWhenInactive w1)))
          ! fst (stopRecording ThrowsWhenInactive w1) = Fulfilled (Some b)"
    by simp_all
  with m a c s show ?thesis
    unfolding w1_def by blast
qed

end
